theory Spec2Isabelle
  imports Complex_Main
begin

section \<open>The cached data-access layer of \<^verbatim>\<open>itemRepository.js\<close>\<close>

text \<open>
  The module keeps two variables, \<^verbatim>\<open>cachedData\<close> and \<^verbatim>\<open>lastFileMtime\<close>, in front
  of one JSON file. Its three entry points (\<^verbatim>\<open>readData\<close>, \<^verbatim>\<open>writeData\<close> and the
  callback given to \<^verbatim>\<open>fs.watch\<close>) are \<^verbatim>\<open>async\<close> functions: each runs without
  interruption from one \<^verbatim>\<open>await\<close> to the next and is suspended in between. The model
  follows that shape. Every function is a step function over its own program counter,
  one equation per stretch of code between two \<^verbatim>\<open>await\<close>s, and \<open>drive\<close> plays the
  event loop that resumes a suspended call.
\<close>

subsection \<open>JavaScript values\<close>

text \<open>
  What \<^verbatim>\<open>JSON.parse\<close> can return. Numbers are IEEE doubles in the source; every finite
  double is a rational, and the only thing the module asks of a number is whether it is
  falsy (zero).
\<close>

datatype jsval =
    JNull
  | JBool bool
  | JNum rat
  | JStr string
  | JArr "jsval list"
  | JObj "(string \<times> jsval) list"

text \<open>The truthiness test of \<^verbatim>\<open>if (cachedData)\<close>.\<close>

fun truthy :: "jsval \<Rightarrow> bool" where
  "truthy JNull = False"
| "truthy (JBool b) = b"
| "truthy (JNum n) = (n \<noteq> 0)"
| "truthy (JStr s) = (s \<noteq> [])"
| "truthy (JArr xs) = True"
| "truthy (JObj kvs) = True"

subsection \<open>The file and the module state\<close>

text \<open>\<^verbatim>\<open>stats.mtime.getTime()\<close>: milliseconds since the epoch.\<close>

type_synonym mtime = int

datatype fsop = ReadFile | WriteFile | Stat

text \<open>
  A rejected \<^verbatim>\<open>fs\<close> promise carries the failing system call (Node's \<^verbatim>\<open>err.syscall\<close>);
  \<open>DecodeError\<close> is the \<^verbatim>\<open>SyntaxError\<close> thrown by \<^verbatim>\<open>JSON.parse\<close>.
\<close>

datatype error = IOError fsop | DecodeError

text \<open>
  The file at \<^verbatim>\<open>DATA_PATH\<close>: its text and modification time when it exists, whether it
  can be written, and the time the operating system stamps on the next write.
  \<^verbatim>\<open>fs.readFile\<close> and \<^verbatim>\<open>fs.stat\<close> reject when the file does not exist;
  \<^verbatim>\<open>fs.writeFile\<close> replaces the whole text and stamps the clock, or rejects and leaves
  the file as it is. An \<^verbatim>\<open>fs\<close> call acts in the step that issues it; its outcome reaches
  the caller when the call is resumed.
\<close>

record store =
  data_file :: "(string \<times> mtime) option"
  writable :: bool
  clock :: mtime

text \<open>
  The two module variables (\<^verbatim>\<open>null\<close> is \<open>JNull\<close>, respectively \<open>None\<close>), the file, and
  the list of \<^verbatim>\<open>fs\<close> calls made so far, oldest first.
\<close>

record world =
  cachedData :: jsval
  lastFileMtime :: "mtime option"
  disk :: store
  calls :: "fsop list"

definition fs_readFile :: "world \<Rightarrow> (error + string) \<times> world" where
  "fs_readFile w =
     ((case data_file (disk w) of
         None \<Rightarrow> Inl (IOError ReadFile)
       | Some (raw, m) \<Rightarrow> Inr raw),
      w\<lparr>calls := calls w @ [ReadFile]\<rparr>)"

definition fs_stat :: "world \<Rightarrow> (error + mtime) \<times> world" where
  "fs_stat w =
     ((case data_file (disk w) of
         None \<Rightarrow> Inl (IOError Stat)
       | Some (raw, m) \<Rightarrow> Inr m),
      w\<lparr>calls := calls w @ [Stat]\<rparr>)"

definition fs_writeFile :: "string \<Rightarrow> world \<Rightarrow> (error + unit) \<times> world" where
  "fs_writeFile raw w =
     (if writable (disk w)
      then (Inr (),
            w\<lparr>disk := (disk w)\<lparr>data_file := Some (raw, clock (disk w))\<rparr>,
              calls := calls w @ [WriteFile]\<rparr>)
      else (Inl (IOError WriteFile), w\<lparr>calls := calls w @ [WriteFile]\<rparr>))"

subsection \<open>Promises and the event loop\<close>

text \<open>
  A call is pending at an \<^verbatim>\<open>await\<close> (the program counter says where, and holds the
  outcome of the \<^verbatim>\<open>fs\<close> call it waits for), resolved with a value, or rejected.
\<close>

datatype ('pc, 'a) status = Pending 'pc | Resolved 'a | Rejected error

text \<open>What another process does to the file while a call is suspended.\<close>

definition external :: "(store \<Rightarrow> store) \<Rightarrow> world \<Rightarrow> world" where
  "external f w = w\<lparr>disk := f (disk w)\<rparr>"

text \<open>Another process removes the file, or replaces its text.\<close>

definition unlink :: "store \<Rightarrow> store" where
  "unlink d = d\<lparr>data_file := None\<rparr>"

definition overwrite :: "string \<Rightarrow> mtime \<Rightarrow> store \<Rightarrow> store" where
  "overwrite raw m d = d\<lparr>data_file := Some (raw, m)\<rparr>"

text \<open>
  \<open>drive step envs pc w\<close> runs a call from \<open>pc\<close>: at each suspension the next element of
  \<open>envs\<close> acts on the file, then the call is resumed. When \<open>envs\<close> is used up the
  status reached is returned as it is.
\<close>

fun drive ::
  "('pc \<Rightarrow> world \<Rightarrow> ('pc, 'a) status \<times> world) \<Rightarrow> (store \<Rightarrow> store) list \<Rightarrow>
   'pc \<Rightarrow> world \<Rightarrow> ('pc, 'a) status \<times> world" where
  "drive step [] pc w = step pc w"
| "drive step (env # envs) pc w =
     (case step pc w of
        (Pending pc', w') \<Rightarrow> drive step envs pc' (external env w')
      | (Resolved v, w') \<Rightarrow> (Resolved v, w')
      | (Rejected e, w') \<Rightarrow> (Rejected e, w'))"

subsection \<open>\<^verbatim>\<open>readData\<close> (lines 53 to 63)\<close>

text \<open>
  \<^verbatim>\<open>async function readData() {\<close>
  \<^verbatim>\<open>  if (cachedData) { return cachedData; }\<close>
  \<^verbatim>\<open>  const raw = await fs.readFile(DATA_PATH, 'utf8');\<close>
  \<^verbatim>\<open>  cachedData = JSON.parse(raw);\<close>
  \<^verbatim>\<open>  const stats = await fs.stat(DATA_PATH);\<close>
  \<^verbatim>\<open>  lastFileMtime = stats.mtime;\<close>
  \<^verbatim>\<open>  return cachedData;\<close>
  \<^verbatim>\<open>}\<close>

  Three stretches: from the call to the first \<^verbatim>\<open>await\<close>; from the outcome of
  \<^verbatim>\<open>fs.readFile\<close> to the second; from the outcome of \<^verbatim>\<open>fs.stat\<close> to the return. A
  rejected \<^verbatim>\<open>await\<close> and a text that \<^verbatim>\<open>JSON.parse\<close> refuses (\<open>None\<close>) throw out of the
  function, which has no handler.
\<close>

datatype readData_pc =
    RD_call
  | RD_readFile "error + string"
  | RD_stat "error + mtime"

fun readData_step ::
  "(string \<Rightarrow> jsval option) \<Rightarrow> readData_pc \<Rightarrow> world \<Rightarrow> (readData_pc, jsval) status \<times> world" where
  "readData_step JSON_parse RD_call w =
     (if truthy (cachedData w) then (Resolved (cachedData w), w)
      else (case fs_readFile w of (r, w') \<Rightarrow> (Pending (RD_readFile r), w')))"
| "readData_step JSON_parse (RD_readFile (Inl e)) w = (Rejected e, w)"
| "readData_step JSON_parse (RD_readFile (Inr raw)) w =
     (case JSON_parse raw of
        None \<Rightarrow> (Rejected DecodeError, w)
      | Some v \<Rightarrow>
          (case fs_stat (w\<lparr>cachedData := v\<rparr>) of (s, w') \<Rightarrow> (Pending (RD_stat s), w')))"
| "readData_step JSON_parse (RD_stat (Inl e)) w = (Rejected e, w)"
| "readData_step JSON_parse (RD_stat (Inr m)) w =
     (let w' = w\<lparr>lastFileMtime := Some m\<rparr> in (Resolved (cachedData w'), w'))"

text \<open>
  \<open>readData_with\<close> is a whole call, with what other processes do to the file during
  its first and second suspension; \<open>readData\<close> is the call during which they do nothing.
  Either way the call runs alone: no other call of the module is pending or started
  while it is suspended. The same holds for \<open>writeData_with\<close>, \<open>writeData\<close>,
  \<open>watch_with\<close> and \<open>watch_callback\<close> below.
\<close>

definition readData_with ::
  "(string \<Rightarrow> jsval option) \<Rightarrow> (store \<Rightarrow> store) list \<Rightarrow> world \<Rightarrow>
   (readData_pc, jsval) status \<times> world" where
  "readData_with JSON_parse envs w = drive (readData_step JSON_parse) envs RD_call w"

definition readData ::
  "(string \<Rightarrow> jsval option) \<Rightarrow> world \<Rightarrow> (readData_pc, jsval) status \<times> world" where
  "readData JSON_parse w = readData_with JSON_parse [id, id] w"

subsection \<open>\<^verbatim>\<open>writeData\<close> (lines 71 to 76)\<close>

text \<open>
  \<^verbatim>\<open>async function writeData(data) {\<close>
  \<^verbatim>\<open>  await fs.writeFile(DATA_PATH, JSON.stringify(data, null, 2), 'utf8');\<close>
  \<^verbatim>\<open>  cachedData = null; // Invalidate cache on write\<close>
  \<^verbatim>\<open>  const stats = await fs.stat(DATA_PATH);\<close>
  \<^verbatim>\<open>  lastFileMtime = stats.mtime; // Update mtime after write\<close>
  \<^verbatim>\<open>}\<close>
\<close>

datatype writeData_pc =
    WD_call jsval
  | WD_writeFile "error + unit"
  | WD_stat "error + mtime"

fun writeData_step ::
  "(jsval \<Rightarrow> string) \<Rightarrow> writeData_pc \<Rightarrow> world \<Rightarrow> (writeData_pc, unit) status \<times> world" where
  "writeData_step JSON_stringify (WD_call data) w =
     (case fs_writeFile (JSON_stringify data) w of (r, w') \<Rightarrow> (Pending (WD_writeFile r), w'))"
| "writeData_step JSON_stringify (WD_writeFile (Inl e)) w = (Rejected e, w)"
| "writeData_step JSON_stringify (WD_writeFile (Inr u)) w =
     (case fs_stat (w\<lparr>cachedData := JNull\<rparr>) of (s, w') \<Rightarrow> (Pending (WD_stat s), w'))"
| "writeData_step JSON_stringify (WD_stat (Inl e)) w = (Rejected e, w)"
| "writeData_step JSON_stringify (WD_stat (Inr m)) w =
     (Resolved (), w\<lparr>lastFileMtime := Some m\<rparr>)"

definition writeData_with ::
  "(jsval \<Rightarrow> string) \<Rightarrow> (store \<Rightarrow> store) list \<Rightarrow> jsval \<Rightarrow> world \<Rightarrow>
   (writeData_pc, unit) status \<times> world" where
  "writeData_with JSON_stringify envs data w =
     drive (writeData_step JSON_stringify) envs (WD_call data) w"

definition writeData ::
  "(jsval \<Rightarrow> string) \<Rightarrow> jsval \<Rightarrow> world \<Rightarrow> (writeData_pc, unit) status \<times> world" where
  "writeData JSON_stringify data w = writeData_with JSON_stringify [id, id] data w"

subsection \<open>The \<^verbatim>\<open>fs.watch\<close> callback of \<^verbatim>\<open>watchFile\<close> (lines 14 to 28)\<close>

text \<open>
  \<^verbatim>\<open>async (eventType) => {\<close>
  \<^verbatim>\<open>  if (eventType === 'change') {\<close>
  \<^verbatim>\<open>    try {\<close>
  \<^verbatim>\<open>      const stats = await fs.stat(DATA_PATH);\<close>
  \<^verbatim>\<open>      // Only invalidate if mtime actually changed (avoid duplicate events)\<close>
  \<^verbatim>\<open>      if (!lastFileMtime || stats.mtime.getTime() !== lastFileMtime.getTime()) {\<close>
  \<^verbatim>\<open>        cachedData = null;\<close>
  \<^verbatim>\<open>        lastFileMtime = stats.mtime;\<close>
  \<^verbatim>\<open>      }\<close>
  \<^verbatim>\<open>    } catch (err) {\<close>
  \<^verbatim>\<open>      // File might have been deleted, invalidate cache\<close>
  \<^verbatim>\<open>      cachedData = null;\<close>
  \<^verbatim>\<open>    }\<close>
  \<^verbatim>\<open>  }\<close>
  \<^verbatim>\<open>}\<close>

  The \<^verbatim>\<open>try\<close> encloses the only statement that can throw, so the callback never
  rejects.
\<close>

datatype watch_pc =
    WF_event string
  | WF_stat "error + mtime"

fun watch_step :: "watch_pc \<Rightarrow> world \<Rightarrow> (watch_pc, unit) status \<times> world" where
  "watch_step (WF_event eventType) w =
     (if eventType = ''change''
      then (case fs_stat w of (s, w') \<Rightarrow> (Pending (WF_stat s), w'))
      else (Resolved (), w))"
| "watch_step (WF_stat (Inr m)) w =
     (if lastFileMtime w = None \<or> Some m \<noteq> lastFileMtime w
      then (Resolved (), w\<lparr>cachedData := JNull, lastFileMtime := Some m\<rparr>)
      else (Resolved (), w))"
| "watch_step (WF_stat (Inl err)) w = (Resolved (), w\<lparr>cachedData := JNull\<rparr>)"

definition watch_with ::
  "(store \<Rightarrow> store) list \<Rightarrow> string \<Rightarrow> world \<Rightarrow> (watch_pc, unit) status \<times> world" where
  "watch_with envs eventType w = drive watch_step envs (WF_event eventType) w"

definition watch_callback :: "string \<Rightarrow> world \<Rightarrow> (watch_pc, unit) status \<times> world" where
  "watch_callback eventType w = watch_with [id] eventType w"

subsection \<open>Loading the module (lines 8, 9 and 40 to 50)\<close>

text \<open>
  \<^verbatim>\<open>let cachedData = null;\<close>
  \<^verbatim>\<open>let lastFileMtime = null;\<close>
\<close>

definition fresh :: "store \<Rightarrow> world" where
  "fresh d = \<lparr>cachedData = JNull, lastFileMtime = None, disk = d, calls = []\<rparr>"

text \<open>
  \<^verbatim>\<open>async function initFileWatcher() {\<close>
  \<^verbatim>\<open>  try {\<close>
  \<^verbatim>\<open>    const stats = await fs.stat(DATA_PATH);\<close>
  \<^verbatim>\<open>    lastFileMtime = stats.mtime;\<close>
  \<^verbatim>\<open>  } catch (err) {\<close>
  \<^verbatim>\<open>    // File might not exist yet, will be set on first read\<close>
  \<^verbatim>\<open>  }\<close>
  \<^verbatim>\<open>  await watchFile();\<close>
  \<^verbatim>\<open>}\<close>

  \<^verbatim>\<open>watchFile\<close> registers the callback above and touches neither variable; the
  notifications it will deliver are calls of \<open>watch_callback\<close>.
\<close>

datatype init_pc =
    IW_call
  | IW_stat "error + mtime"
  | IW_watchFile

fun initFileWatcher_step :: "init_pc \<Rightarrow> world \<Rightarrow> (init_pc, unit) status \<times> world" where
  "initFileWatcher_step IW_call w =
     (case fs_stat w of (s, w') \<Rightarrow> (Pending (IW_stat s), w'))"
| "initFileWatcher_step (IW_stat (Inr m)) w = (Pending IW_watchFile, w\<lparr>lastFileMtime := Some m\<rparr>)"
| "initFileWatcher_step (IW_stat (Inl err)) w = (Pending IW_watchFile, w)"
| "initFileWatcher_step IW_watchFile w = (Resolved (), w)"

definition initFileWatcher :: "world \<Rightarrow> (init_pc, unit) status \<times> world" where
  "initFileWatcher w = drive initFileWatcher_step [id, id] IW_call w"

subsection \<open>Consecutive reads\<close>

text \<open>\<open>reads JSON_parse n w\<close>: the module after \<open>n\<close> calls of \<^verbatim>\<open>readData\<close> in a row.\<close>

fun reads :: "(string \<Rightarrow> jsval option) \<Rightarrow> nat \<Rightarrow> world \<Rightarrow> world" where
  "reads JSON_parse 0 w = w"
| "reads JSON_parse (Suc n) w = snd (readData JSON_parse (reads JSON_parse n w))"

subsection \<open>Data for the examples\<close>

text \<open>
  \<^verbatim>\<open>JSON.parse\<close> and \<^verbatim>\<open>JSON.stringify(data, null, 2)\<close> belong to the language, not to the
  module, so the model takes them as parameters. The examples need them at a few
  arguments only: \<open>JSON_parse_ex\<close> and \<open>JSON_stringify_ex\<close> are their graphs cut down to
  those arguments (\<open>pretty_1\<close> is the two-space layout of \<^verbatim>\<open>[1]\<close>, with its line
  feeds). Outside this table the two functions are not used.
\<close>

definition pretty_1 :: string where
  "pretty_1 = ''['' @ [CHR 0x0A] @ ''  1'' @ [CHR 0x0A] @ '']''"

definition JSON_parse_ex :: "string \<Rightarrow> jsval option" where
  "JSON_parse_ex s =
     (if s = ''[]'' then Some (JArr [])
      else if s = ''[1]'' then Some (JArr [JNum 1])
      else if s = pretty_1 then Some (JArr [JNum 1])
      else if s = ''[2]'' then Some (JArr [JNum 2])
      else if s = ''0'' then Some (JNum 0)
      else if s = ''null'' then Some JNull
      else None)"

definition JSON_stringify_ex :: "jsval \<Rightarrow> string" where
  "JSON_stringify_ex v =
     (if v = JArr [JNum 1] then pretty_1
      else if v = JArr [] then ''[]''
      else ''null'')"

definition seeded :: store where
  "seeded = \<lparr>data_file = Some (''[2]'', 5), writable = True, clock = 9\<rparr>"

definition read_only :: store where
  "read_only = \<lparr>data_file = Some (''[2]'', 5), writable = False, clock = 9\<rparr>"

text \<open>
  \<open>idle\<close>: the module once \<^verbatim>\<open>initFileWatcher\<close> has run on the seeded file, nothing read
  yet. \<open>primed\<close>: after a \<^verbatim>\<open>readData\<close> from there. Both with the list of calls started
  afresh.
\<close>

definition idle :: world where
  "idle = \<lparr>cachedData = JNull, lastFileMtime = Some 5, disk = seeded, calls = []\<rparr>"

definition primed :: world where
  "primed = \<lparr>cachedData = JArr [JNum 2], lastFileMtime = Some 5, disk = seeded, calls = []\<rparr>"

section \<open>Properties\<close>

subsection \<open>Undisturbed calls in closed form\<close>

lemma external_id: "external id w = w"
  by (simp add: external_def)

lemma drive_Resolved:
  "step pc w = (Resolved v, w') \<Longrightarrow> drive step envs pc w = (Resolved v, w')"
  by (cases envs) simp_all

lemma drive_Rejected:
  "step pc w = (Rejected e, w') \<Longrightarrow> drive step envs pc w = (Rejected e, w')"
  by (cases envs) simp_all

lemma readData_hit:
  "truthy (cachedData w) \<Longrightarrow> readData_with P envs w = (Resolved (cachedData w), w)"
  unfolding readData_with_def by (rule drive_Resolved) simp

lemma readData_miss:
  assumes "\<not> truthy (cachedData w)"
  shows "readData P w =
     (case data_file (disk w) of
        None \<Rightarrow> (Rejected (IOError ReadFile), w\<lparr>calls := calls w @ [ReadFile]\<rparr>)
      | Some (raw, m) \<Rightarrow>
          (case P raw of
             None \<Rightarrow> (Rejected DecodeError, w\<lparr>calls := calls w @ [ReadFile]\<rparr>)
           | Some v \<Rightarrow>
               (Resolved v,
                w\<lparr>cachedData := v, lastFileMtime := Some m,
                  calls := calls w @ [ReadFile, Stat]\<rparr>)))"
  using assms
  by (simp add: readData_def readData_with_def fs_readFile_def fs_stat_def external_id
      split: option.splits)

lemma writeData_quiet:
  "writeData S C w =
     (if writable (disk w)
      then (Resolved (),
            w\<lparr>cachedData := JNull, lastFileMtime := Some (clock (disk w)),
              disk := (disk w)\<lparr>data_file := Some (S C, clock (disk w))\<rparr>,
              calls := calls w @ [WriteFile, Stat]\<rparr>)
      else (Rejected (IOError WriteFile), w\<lparr>calls := calls w @ [WriteFile]\<rparr>))"
  by (simp add: writeData_def writeData_with_def fs_writeFile_def fs_stat_def external_id)

lemma watch_quiet:
  "watch_callback ''change'' w =
     (case data_file (disk w) of
        None \<Rightarrow> (Resolved (), w\<lparr>cachedData := JNull, calls := calls w @ [Stat]\<rparr>)
      | Some (raw, m) \<Rightarrow>
          (if lastFileMtime w = Some m
           then (Resolved (), w\<lparr>calls := calls w @ [Stat]\<rparr>)
           else (Resolved (),
                 w\<lparr>cachedData := JNull, lastFileMtime := Some m,
                   calls := calls w @ [Stat]\<rparr>)))"
  by (auto simp add: watch_callback_def watch_with_def fs_stat_def external_id
      split: option.splits)

lemma readData_settles: "fst (readData P w) \<noteq> Pending pc"
proof (cases "truthy (cachedData w)")
  case True
  then show ?thesis by (simp add: readData_def readData_hit)
next
  case False
  then show ?thesis by (simp add: readData_miss split: option.splits)
qed

lemma writeData_settles: "fst (writeData S C w) \<noteq> Pending pc"
  by (simp add: writeData_quiet)

lemma watch_callback_resolves: "fst (watch_callback eventType w) = Resolved ()"
proof (cases "eventType = ''change''")
  case True
  then show ?thesis by (simp add: watch_quiet split: option.splits)
next
  case False
  then show ?thesis by (simp add: watch_callback_def watch_with_def)
qed

lemmas ex_defs =
  JSON_parse_ex_def JSON_stringify_ex_def pretty_1_def seeded_def read_only_def primed_def
  unlink_def overwrite_def fresh_def idle_def

text \<open>The two example states are what loading and a first read leave behind.\<close>

lemma idle_after_init:
  "initFileWatcher (fresh seeded) = (Resolved (), idle\<lparr>calls := [Stat]\<rparr>)"
  by (simp add: initFileWatcher_def fs_stat_def external_id ex_defs)

lemma primed_after_read:
  "readData JSON_parse_ex idle = (Resolved (JArr [JNum 2]), primed\<lparr>calls := [ReadFile, Stat]\<rparr>)"
  by (simp add: readData_miss ex_defs)

subsection \<open>Write, then read\<close>

text \<open>
  C1. Let \<open>C\<close> be a collection that \<^verbatim>\<open>JSON.parse\<close> gives back from its
  \<^verbatim>\<open>JSON.stringify\<close> text. If \<^verbatim>\<open>writeData(C)\<close> resolves, and no other process touches
  the file, then the next \<^verbatim>\<open>readData()\<close> resolves with a value equal to \<open>C\<close> (and that
  value is what the cache then holds).
\<close>

theorem write_then_read_roundtrip:
  assumes "JSON_parse (JSON_stringify C) = Some C"
    and "writeData JSON_stringify C w = (Resolved (), w1)"
  shows "fst (readData JSON_parse w1) = Resolved C \<and>
         cachedData (snd (readData JSON_parse w1)) = C"
proof -
  from assms(2) have wr: "writable (disk w)"
    by (simp add: writeData_quiet split: if_splits)
  with assms(2) have w1: "w1 = w\<lparr>cachedData := JNull, lastFileMtime := Some (clock (disk w)),
      disk := (disk w)\<lparr>data_file := Some (JSON_stringify C, clock (disk w))\<rparr>,
      calls := calls w @ [WriteFile, Stat]\<rparr>"
    by (simp add: writeData_quiet)
  have "\<not> truthy (cachedData w1)" by (simp add: w1)
  then show ?thesis
    by (simp add: readData_miss w1 assms(1))
qed

theorem write_then_read_roundtrip_witness:
  "JSON_parse_ex (JSON_stringify_ex (JArr [JNum 1])) = Some (JArr [JNum 1]) \<and>
   fst (writeData JSON_stringify_ex (JArr [JNum 1]) primed) = Resolved () \<and>
   fst (readData JSON_parse_ex (snd (writeData JSON_stringify_ex (JArr [JNum 1]) primed)))
     = Resolved (JArr [JNum 1])"
proof -
  have h1: "JSON_parse_ex (JSON_stringify_ex (JArr [JNum 1])) = Some (JArr [JNum 1])"
    by (simp add: ex_defs)
  have h2: "writeData JSON_stringify_ex (JArr [JNum 1]) primed =
      (Resolved (), snd (writeData JSON_stringify_ex (JArr [JNum 1]) primed))"
    by (simp add: writeData_quiet ex_defs)
  from write_then_read_roundtrip
      [of JSON_parse_ex JSON_stringify_ex "JArr [JNum 1]" primed, OF h1 h2] h1 h2
  show ?thesis
    by (simp add: writeData_quiet ex_defs)
qed

subsection \<open>Reading from the cache\<close>

text \<open>
  C2. When \<^verbatim>\<open>cachedData\<close> is truthy, \<^verbatim>\<open>readData\<close> resolves at once with the cached
  value and leaves the whole state as it was, the list of \<^verbatim>\<open>fs\<close> calls included,
  whatever happens to the file meanwhile. So of two \<^verbatim>\<open>readData\<close> calls in a row only the
  first can touch the file: when it resolves with a truthy value (every array is one),
  the second resolves with the same value and makes no \<^verbatim>\<open>fs\<close> call. The model compares
  values by content; in the source the second call returns the very object the cache
  holds.
\<close>

theorem cached_read_short_circuit:
  "(truthy (cachedData w) \<longrightarrow>
      readData_with JSON_parse envs w = (Resolved (cachedData w), w)) \<and>
   (readData JSON_parse w0 = (Resolved v, w1) \<and> truthy v \<longrightarrow>
      readData_with JSON_parse envs w1 = (Resolved v, w1))"
proof (intro conjI impI)
  assume "truthy (cachedData w)"
  then show "readData_with JSON_parse envs w = (Resolved (cachedData w), w)"
    by (rule readData_hit)
next
  assume a: "readData JSON_parse w0 = (Resolved v, w1) \<and> truthy v"
  have "cachedData w1 = v"
  proof (cases "truthy (cachedData w0)")
    case True
    with a show ?thesis by (auto simp add: readData_def readData_hit)
  next
    case False
    with a show ?thesis
      by (auto simp add: readData_miss split: option.splits)
  qed
  with a show "readData_with JSON_parse envs w1 = (Resolved v, w1)"
    using readData_hit [of w1 JSON_parse envs] by simp
qed

theorem cached_read_short_circuit_witness:
  "truthy (cachedData primed) \<and>
   readData_with JSON_parse_ex [unlink, id] primed = (Resolved (JArr [JNum 2]), primed) \<and>
   readData JSON_parse_ex idle
     = (Resolved (JArr [JNum 2]), primed\<lparr>calls := [ReadFile, Stat]\<rparr>) \<and>
   truthy (JArr [JNum 2]) \<and>
   readData_with JSON_parse_ex [unlink, id] (primed\<lparr>calls := [ReadFile, Stat]\<rparr>)
     = (Resolved (JArr [JNum 2]), primed\<lparr>calls := [ReadFile, Stat]\<rparr>)"
proof -
  have h1: "truthy (cachedData primed)" by (simp add: ex_defs)
  have h2: "readData JSON_parse_ex idle =
      (Resolved (JArr [JNum 2]), primed\<lparr>calls := [ReadFile, Stat]\<rparr>)"
    by (simp add: readData_miss ex_defs)
  have h3: "cachedData primed = JArr [JNum 2]" by (simp add: ex_defs)
  from cached_read_short_circuit
      [where w = primed and ?w0.0 = idle and JSON_parse = JSON_parse_ex
         and envs = "[unlink, id]" and v = "JArr [JNum 2]"
         and ?w1.0 = "primed\<lparr>calls := [ReadFile, Stat]\<rparr>"]
    h1 h2 h3
  show ?thesis by simp
qed

subsection \<open>A call that fails\<close>

text \<open>
  When \<^verbatim>\<open>readData\<close> is rejected by \<^verbatim>\<open>fs.readFile\<close> or by \<^verbatim>\<open>JSON.parse\<close>, it has not yet
  assigned anything: the cache is as empty as it was, and the next call starts over.
\<close>

lemma readData_fails_before_assignment:
  assumes "\<not> truthy (cachedData w)"
    and "readData_with P (env # envs) w = (Rejected e, w')"
    and "e \<noteq> IOError Stat"
  shows "cachedData w' = cachedData w \<and> lastFileMtime w' = lastFileMtime w"
proof (cases "data_file (disk w)")
  case None
  with assms(1,2) show ?thesis
    by (auto simp add: readData_with_def fs_readFile_def external_def
        drive_Rejected [where step = "readData_step P" and e = "IOError ReadFile"])
next
  case (Some a)
  obtain raw m where a: "a = (raw, m)" by (cases a)
  show ?thesis
  proof (cases "P raw")
    case None
    with assms(1,2) Some a show ?thesis
      by (auto simp add: readData_with_def fs_readFile_def external_def
          drive_Rejected [where step = "readData_step P" and e = DecodeError])
  next
    case (Some v)
    let ?w1 = "external env (w\<lparr>calls := calls w @ [ReadFile]\<rparr>)"
    obtain s w2 where st: "fs_stat (?w1\<lparr>cachedData := v\<rparr>) = (s, w2)"
      by (cases "fs_stat (?w1\<lparr>cachedData := v\<rparr>)")
    have s: "s = Inl (IOError Stat) \<or> (\<exists>m'. s = Inr m')"
      using st by (auto simp add: fs_stat_def split: option.splits)
    have "fst (drive (readData_step P) envs' (RD_stat s) w3) \<noteq> Rejected e" for envs' w3
      using s assms(3)
      by (cases envs') (auto simp add: Let_def)
    moreover have "readData_with P (env # envs) w =
        (case envs of [] \<Rightarrow> (Pending (RD_stat s), w2)
         | env2 # envs2 \<Rightarrow> drive (readData_step P) envs2 (RD_stat s) (external env2 w2))"
      using assms(1) \<open>data_file (disk w) = Some a\<close> a Some st
      by (cases envs) (simp_all add: readData_with_def fs_readFile_def)
    ultimately show ?thesis
      using assms(2) by (cases envs) (auto dest: arg_cong [where f = fst])
  qed
qed

text \<open>
  C3 says that every failed \<^verbatim>\<open>readData\<close> leaves the cache empty, also when it is the
  \<^verbatim>\<open>fs.stat\<close> after the read that fails. The source assigns \<^verbatim>\<open>cachedData\<close> (line 59)
  before it awaits \<^verbatim>\<open>fs.stat\<close> (line 60). Here nothing is cached, the file holds
  \<^verbatim>\<open>[2]\<close> and is removed after it has been read: the call is rejected by \<^verbatim>\<open>fs.stat\<close>,
  yet \<^verbatim>\<open>cachedData\<close> holds \<^verbatim>\<open>[2]\<close>. The file is then put back with the text \<^verbatim>\<open>[1]\<close>:
  the next \<^verbatim>\<open>readData\<close> resolves with the old \<^verbatim>\<open>[2]\<close> and makes no \<^verbatim>\<open>fs\<close> call. The
  callback of \<^verbatim>\<open>fs.watch\<close> clears the cache when its own \<^verbatim>\<open>fs.stat\<close> fails (line 25);
  \<^verbatim>\<open>readData\<close> does not.
\<close>

theorem readData_stat_failure_poisons_cache:
  "readData_with JSON_parse_ex [unlink, id] idle =
     (Rejected (IOError Stat),
      \<lparr>cachedData = JArr [JNum 2], lastFileMtime = Some 5, disk = unlink seeded,
         calls = [ReadFile, Stat]\<rparr>) \<and>
   readData JSON_parse_ex
     \<lparr>cachedData = JArr [JNum 2], lastFileMtime = Some 5, disk = overwrite ''[1]'' 7 seeded,
        calls = [ReadFile, Stat]\<rparr> =
     (Resolved (JArr [JNum 2]),
      \<lparr>cachedData = JArr [JNum 2], lastFileMtime = Some 5, disk = overwrite ''[1]'' 7 seeded,
         calls = [ReadFile, Stat]\<rparr>)"
  by (simp add: readData_def readData_with_def fs_readFile_def fs_stat_def external_def ex_defs)

text \<open>
  C4 as stated, for every rejected \<^verbatim>\<open>writeData\<close>, does not hold: when the file has
  been written and is removed before the \<^verbatim>\<open>fs.stat\<close> of line 74, the call is rejected
  with the error of \<^verbatim>\<open>fs.stat\<close> after line 73 has cleared \<^verbatim>\<open>cachedData\<close>.
\<close>

theorem writeData_stat_failure_counterexample:
  "cachedData primed = JArr [JNum 2] \<and>
   writeData_with JSON_stringify_ex [unlink, id] (JArr []) primed =
     (Rejected (IOError Stat),
      \<lparr>cachedData = JNull, lastFileMtime = Some 5, disk = unlink seeded,
         calls = [WriteFile, Stat]\<rparr>)"
  by (simp add: writeData_with_def fs_writeFile_def fs_stat_def external_def ex_defs)

text \<open>
  C4, amended. When it is the write itself (\<^verbatim>\<open>fs.writeFile\<close>) that fails, \<^verbatim>\<open>writeData\<close>
  leaves \<^verbatim>\<open>cachedData\<close> and \<^verbatim>\<open>lastFileMtime\<close> exactly as they were, whatever other
  processes do to the file during the call. In a call during which nobody else touches
  the file, this is the only way \<^verbatim>\<open>writeData\<close> can fail.
\<close>

theorem failed_store_write_keeps_cache:
  "(writeData_with JSON_stringify envs C w = (Rejected (IOError WriteFile), w') \<longrightarrow>
      cachedData w' = cachedData w \<and> lastFileMtime w' = lastFileMtime w) \<and>
   (writeData JSON_stringify C w0 = (Rejected e, w1) \<longrightarrow>
      e = IOError WriteFile \<and> cachedData w1 = cachedData w0 \<and>
      lastFileMtime w1 = lastFileMtime w0)"
proof (rule conjI; rule impI)
  assume r: "writeData_with JSON_stringify envs C w = (Rejected (IOError WriteFile), w')"
  show "cachedData w' = cachedData w \<and> lastFileMtime w' = lastFileMtime w"
  proof (cases "writable (disk w)")
    case False
    with r show ?thesis
      by (cases envs)
        (auto simp add: writeData_with_def fs_writeFile_def external_def
          drive_Rejected [where step = "writeData_step JSON_stringify" and e = "IOError WriteFile"])
  next
    case True
    have no: "fst (drive (writeData_step JSON_stringify) es (WD_stat s) x)
        \<noteq> Rejected (IOError WriteFile)"
      if "s = Inl (IOError Stat) \<or> (\<exists>m. s = Inr m)" for es s x
      using that by (cases es) auto
    have st: "fst (fs_stat x) = Inl (IOError Stat) \<or> (\<exists>m. fst (fs_stat x) = Inr m)" for x
      by (auto simp add: fs_stat_def split: option.splits)
    have "fst (writeData_with JSON_stringify envs C w) \<noteq> Rejected (IOError WriteFile)"
    proof (cases envs)
      case Nil
      with True show ?thesis by (simp add: writeData_with_def fs_writeFile_def)
    next
      case (Cons env es)
      show ?thesis
      proof (cases es)
        case Nil
        with Cons True show ?thesis
          by (simp add: writeData_with_def fs_writeFile_def split: prod.splits)
      next
        case (Cons env2 es2)
        with \<open>envs = env # es\<close> True show ?thesis
          using no [OF st]
          by (simp add: writeData_with_def fs_writeFile_def split: prod.splits)
            (metis fst_conv)
      qed
    qed
    with r show ?thesis by simp
  qed
next
  assume "writeData JSON_stringify C w0 = (Rejected e, w1)"
  then show "e = IOError WriteFile \<and> cachedData w1 = cachedData w0 \<and>
      lastFileMtime w1 = lastFileMtime w0"
    by (auto simp add: writeData_quiet split: if_splits)
qed

theorem failed_store_write_keeps_cache_witness:
  "writeData_with JSON_stringify_ex [unlink, id] (JArr []) (primed\<lparr>disk := read_only\<rparr>) =
     (Rejected (IOError WriteFile),
      \<lparr>cachedData = JArr [JNum 2], lastFileMtime = Some 5, disk = unlink read_only,
         calls = [WriteFile]\<rparr>) \<and>
   cachedData (primed\<lparr>disk := read_only\<rparr>) = JArr [JNum 2] \<and>
   lastFileMtime (primed\<lparr>disk := read_only\<rparr>) = Some 5 \<and>
   writeData JSON_stringify_ex (JArr []) (primed\<lparr>disk := read_only\<rparr>) =
     (Rejected (IOError WriteFile), primed\<lparr>disk := read_only, calls := [WriteFile]\<rparr>)"
proof -
  let ?w = "primed\<lparr>disk := read_only\<rparr>"
  let ?w' = "\<lparr>cachedData = JArr [JNum 2], lastFileMtime = Some 5, disk = unlink read_only,
         calls = [WriteFile]\<rparr>"
  have h1: "writeData_with JSON_stringify_ex [unlink, id] (JArr []) ?w =
      (Rejected (IOError WriteFile), ?w')"
    by (simp add: writeData_with_def fs_writeFile_def external_def ex_defs)
  have h2: "writeData JSON_stringify_ex (JArr []) ?w =
      (Rejected (IOError WriteFile), primed\<lparr>disk := read_only, calls := [WriteFile]\<rparr>)"
    by (simp add: writeData_quiet ex_defs)
  note keep = failed_store_write_keeps_cache
    [where JSON_stringify = JSON_stringify_ex and envs = "[unlink, id]" and C = "JArr []"
       and w = ?w and w' = ?w' and ?w0.0 = ?w and e = "IOError WriteFile"
       and ?w1.0 = "primed\<lparr>disk := read_only, calls := [WriteFile]\<rparr>"]
  from keep [THEN conjunct1] h1
  have c: "cachedData ?w' = cachedData ?w \<and> lastFileMtime ?w' = lastFileMtime ?w" by blast
  have "cachedData ?w' = JArr [JNum 2]" "lastFileMtime ?w' = Some 5" by simp_all
  with c have "cachedData ?w = JArr [JNum 2]" "lastFileMtime ?w = Some 5" by simp_all
  with h1 h2 show ?thesis by (simp only: simp_thms)
qed

subsection \<open>Where the two variables are assigned\<close>

text \<open>
  C5 as stated does not hold for \<^verbatim>\<open>writeData\<close> and \<^verbatim>\<open>readData\<close>. The \<^verbatim>\<open>writeData\<close>
  below, called with the cache primed, is suspended at the \<^verbatim>\<open>await\<close> of line 74 with
  \<^verbatim>\<open>cachedData\<close> already cleared and \<^verbatim>\<open>lastFileMtime\<close> still 5, the time of the file
  it has replaced; only the resumed call sets it to 9. Another process then replaces
  the file (time 12), and a \<^verbatim>\<open>readData\<close> is suspended at the \<^verbatim>\<open>await\<close> of line 60 with
  \<^verbatim>\<open>cachedData\<close> already the decoded \<^verbatim>\<open>[1]\<close> and \<^verbatim>\<open>lastFileMtime\<close> still 9.
\<close>

theorem torn_update_counterexample:
  "cachedData primed = JArr [JNum 2] \<and> lastFileMtime primed = Some 5 \<and>
   writeData_with JSON_stringify_ex [id] (JArr []) primed =
     (Pending (WD_stat (Inr 9)),
      \<lparr>cachedData = JNull, lastFileMtime = Some 5, disk = overwrite ''[]'' 9 seeded,
         calls = [WriteFile, Stat]\<rparr>) \<and>
   writeData_with JSON_stringify_ex [id, id] (JArr []) primed =
     (Resolved (),
      \<lparr>cachedData = JNull, lastFileMtime = Some 9, disk = overwrite ''[]'' 9 seeded,
         calls = [WriteFile, Stat]\<rparr>) \<and>
   readData_with JSON_parse_ex [id]
     \<lparr>cachedData = JNull, lastFileMtime = Some 9, disk = overwrite ''[1]'' 12 seeded,
        calls = []\<rparr> =
     (Pending (RD_stat (Inr 12)),
      \<lparr>cachedData = JArr [JNum 1], lastFileMtime = Some 9, disk = overwrite ''[1]'' 12 seeded,
         calls = [ReadFile, Stat]\<rparr>) \<and>
   readData_with JSON_parse_ex [id, id]
     \<lparr>cachedData = JNull, lastFileMtime = Some 9, disk = overwrite ''[1]'' 12 seeded,
        calls = []\<rparr> =
     (Resolved (JArr [JNum 1]),
      \<lparr>cachedData = JArr [JNum 1], lastFileMtime = Some 12, disk = overwrite ''[1]'' 12 seeded,
         calls = [ReadFile, Stat]\<rparr>)"
  by (simp add: writeData_with_def readData_with_def fs_writeFile_def fs_readFile_def
      fs_stat_def external_def ex_defs)

text \<open>
  C5, amended. The callback of \<^verbatim>\<open>fs.watch\<close> is never suspended between its assignments:
  wherever it is pending it has changed neither variable. \<^verbatim>\<open>readData\<close> and \<^verbatim>\<open>writeData\<close>
  are suspended, on \<^verbatim>\<open>fs.stat\<close>, between theirs: at that point \<^verbatim>\<open>cachedData\<close> holds the
  call's value (the decoded text, respectively \<^verbatim>\<open>null\<close>) and \<^verbatim>\<open>lastFileMtime\<close> its
  earlier one. Once such a call has resolved, having run alone (no other call of the
  module pending or started during it, and no other process touching the file), both
  variables are up to date: \<^verbatim>\<open>cachedData\<close> is the decoded text (respectively \<^verbatim>\<open>null\<close>)
  and \<^verbatim>\<open>lastFileMtime\<close> the modification time of the file. Calls that overlap are not
  covered: a \<^verbatim>\<open>readData\<close> pending on \<^verbatim>\<open>fs.readFile\<close> runs line 59 after an overlapping
  \<^verbatim>\<open>writeData\<close> has run line 73, and that \<^verbatim>\<open>writeData\<close> then resolves with the cache
  holding what the reader decoded.
\<close>

theorem cache_update_points:
  "(watch_step pc w = (Pending pc', w') \<longrightarrow>
      cachedData w' = cachedData w \<and> lastFileMtime w' = lastFileMtime w) \<and>
   (readData_step JSON_parse rpc rw = (Pending (RD_stat s), rw') \<longrightarrow>
      (\<exists>raw. rpc = RD_readFile (Inr raw) \<and> JSON_parse raw = Some (cachedData rw')) \<and>
      lastFileMtime rw' = lastFileMtime rw) \<and>
   (writeData_step JSON_stringify wpc ww = (Pending (WD_stat s'), ww') \<longrightarrow>
      cachedData ww' = JNull \<and> lastFileMtime ww' = lastFileMtime ww) \<and>
   (\<not> truthy (cachedData w0) \<and> readData JSON_parse w0 = (Resolved v, w1) \<longrightarrow>
      cachedData w1 = v \<and>
      (\<exists>raw m. data_file (disk w0) = Some (raw, m) \<and> JSON_parse raw = Some v \<and>
         lastFileMtime w1 = Some m)) \<and>
   (writeData JSON_stringify C w2 = (Resolved (), w3) \<longrightarrow>
      cachedData w3 = JNull \<and> lastFileMtime w3 = Some (clock (disk w2)) \<and>
      data_file (disk w3) = Some (JSON_stringify C, clock (disk w2)))"
proof -
  have a: "watch_step pc w = (Pending pc', w') \<Longrightarrow>
      cachedData w' = cachedData w \<and> lastFileMtime w' = lastFileMtime w"
    by (cases "(pc, w)" rule: watch_step.cases)
      (auto simp add: fs_stat_def split: if_splits)
  have b: "readData_step JSON_parse rpc rw = (Pending (RD_stat s), rw') \<Longrightarrow>
      (\<exists>raw. rpc = RD_readFile (Inr raw) \<and> JSON_parse raw = Some (cachedData rw')) \<and>
      lastFileMtime rw' = lastFileMtime rw"
    by (cases "(JSON_parse, rpc, rw)" rule: readData_step.cases)
      (auto simp add: fs_stat_def fs_readFile_def Let_def split: if_splits option.splits)
  have c: "writeData_step JSON_stringify wpc ww = (Pending (WD_stat s'), ww') \<Longrightarrow>
      cachedData ww' = JNull \<and> lastFileMtime ww' = lastFileMtime ww"
    by (cases "(JSON_stringify, wpc, ww)" rule: writeData_step.cases)
      (auto simp add: fs_stat_def fs_writeFile_def split: if_splits)
  have d: "\<not> truthy (cachedData w0) \<and> readData JSON_parse w0 = (Resolved v, w1) \<Longrightarrow>
      cachedData w1 = v \<and>
      (\<exists>raw m. data_file (disk w0) = Some (raw, m) \<and> JSON_parse raw = Some v \<and>
         lastFileMtime w1 = Some m)"
    by (auto simp add: readData_miss split: option.splits)
  have e: "writeData JSON_stringify C w2 = (Resolved (), w3) \<Longrightarrow>
      cachedData w3 = JNull \<and> lastFileMtime w3 = Some (clock (disk w2)) \<and>
      data_file (disk w3) = Some (JSON_stringify C, clock (disk w2))"
    by (auto simp add: writeData_quiet split: if_splits)
  from a b c d e show ?thesis by blast
qed

theorem cache_update_points_witness:
  "watch_step (WF_event ''change'') primed = (Pending (WF_stat (Inr 5)), primed\<lparr>calls := [Stat]\<rparr>) \<and>
   cachedData (primed\<lparr>calls := [Stat]\<rparr>) = cachedData primed \<and>
   lastFileMtime (primed\<lparr>calls := [Stat]\<rparr>) = lastFileMtime primed \<and>
   readData_step JSON_parse_ex (RD_readFile (Inr ''[2]'')) idle =
     (Pending (RD_stat (Inr 5)), idle\<lparr>cachedData := JArr [JNum 2], calls := [Stat]\<rparr>) \<and>
   lastFileMtime (idle\<lparr>cachedData := JArr [JNum 2], calls := [Stat]\<rparr>) = Some 5 \<and>
   writeData_step JSON_stringify_ex (WD_writeFile (Inr ())) primed =
     (Pending (WD_stat (Inr 5)), primed\<lparr>cachedData := JNull, calls := [Stat]\<rparr>) \<and>
   lastFileMtime (primed\<lparr>cachedData := JNull, calls := [Stat]\<rparr>) = Some 5 \<and>
   \<not> truthy (cachedData idle) \<and>
   readData JSON_parse_ex idle =
     (Resolved (JArr [JNum 2]), primed\<lparr>calls := [ReadFile, Stat]\<rparr>) \<and>
   lastFileMtime (primed\<lparr>calls := [ReadFile, Stat]\<rparr>) = Some 5 \<and>
   writeData JSON_stringify_ex (JArr []) primed =
     (Resolved (),
      \<lparr>cachedData = JNull, lastFileMtime = Some 9, disk = overwrite ''[]'' 9 seeded,
         calls = [WriteFile, Stat]\<rparr>)"
proof -
  have h1: "watch_step (WF_event ''change'') primed =
      (Pending (WF_stat (Inr 5)), primed\<lparr>calls := [Stat]\<rparr>)"
    by (simp add: fs_stat_def ex_defs)
  have h2: "readData_step JSON_parse_ex (RD_readFile (Inr ''[2]'')) idle =
      (Pending (RD_stat (Inr 5)), idle\<lparr>cachedData := JArr [JNum 2], calls := [Stat]\<rparr>)"
    by (simp add: fs_stat_def ex_defs)
  have h3: "writeData_step JSON_stringify_ex (WD_writeFile (Inr ())) primed =
      (Pending (WD_stat (Inr 5)), primed\<lparr>cachedData := JNull, calls := [Stat]\<rparr>)"
    by (simp add: fs_stat_def ex_defs)
  have h4: "\<not> truthy (cachedData idle)" by (simp add: ex_defs)
  have h5: "readData JSON_parse_ex idle =
      (Resolved (JArr [JNum 2]), primed\<lparr>calls := [ReadFile, Stat]\<rparr>)"
    by (simp add: readData_miss ex_defs)
  have h6: "writeData JSON_stringify_ex (JArr []) primed =
      (Resolved (),
       \<lparr>cachedData = JNull, lastFileMtime = Some 9, disk = overwrite ''[]'' 9 seeded,
          calls = [WriteFile, Stat]\<rparr>)"
    by (simp add: writeData_quiet ex_defs)
  note pts = cache_update_points
    [where pc = "WF_event ''change''" and w = primed and pc' = "WF_stat (Inr 5)"
       and w' = "primed\<lparr>calls := [Stat]\<rparr>"
       and JSON_parse = JSON_parse_ex and rpc = "RD_readFile (Inr ''[2]'')"
       and rw = idle and s = "Inr 5"
       and rw' = "idle\<lparr>cachedData := JArr [JNum 2], calls := [Stat]\<rparr>"
       and JSON_stringify = JSON_stringify_ex and wpc = "WD_writeFile (Inr ())"
       and ww = primed and s' = "Inr 5"
       and ww' = "primed\<lparr>cachedData := JNull, calls := [Stat]\<rparr>"
       and ?w0.0 = idle and v = "JArr [JNum 2]"
       and ?w1.0 = "primed\<lparr>calls := [ReadFile, Stat]\<rparr>"
       and C = "JArr []" and ?w2.0 = primed
       and ?w3.0 = "\<lparr>cachedData = JNull, lastFileMtime = Some 9,
          disk = overwrite ''[]'' 9 seeded, calls = [WriteFile, Stat]\<rparr>"]
  from pts h1 have c1: "cachedData (primed\<lparr>calls := [Stat]\<rparr>) = cachedData primed \<and>
      lastFileMtime (primed\<lparr>calls := [Stat]\<rparr>) = lastFileMtime primed" by blast
  from pts h2 have c2: "lastFileMtime (idle\<lparr>cachedData := JArr [JNum 2], calls := [Stat]\<rparr>)
      = lastFileMtime idle" by blast
  from pts h3 have c3: "lastFileMtime (primed\<lparr>cachedData := JNull, calls := [Stat]\<rparr>)
      = lastFileMtime primed" by blast
  from pts h4 h5 have c4: "\<exists>raw m. data_file (disk idle) = Some (raw, m) \<and>
      JSON_parse_ex raw = Some (JArr [JNum 2]) \<and>
      lastFileMtime (primed\<lparr>calls := [ReadFile, Stat]\<rparr>) = Some m" by blast
  have t: "lastFileMtime idle = Some 5" "lastFileMtime primed = Some 5"
    "data_file (disk idle) = Some (''[2]'', 5)"
    by (simp_all add: ex_defs)
  from c4 t(3) have c4': "lastFileMtime (primed\<lparr>calls := [ReadFile, Stat]\<rparr>) = Some 5" by auto
  from c1 c2 c3 c4' t(1,2) h1 h2 h3 h4 h5 h6 show ?thesis
    by (simp only: simp_thms)
qed

subsection \<open>Change notifications\<close>

text \<open>
  C6. Another process replaces the text of the file, and the new modification time
  differs from the recorded \<^verbatim>\<open>lastFileMtime\<close> (as it does when it has advanced past
  it). Once the \<^verbatim>\<open>'change'\<close> notification has been handled, the cache is empty and the
  token is the new time; the next \<^verbatim>\<open>readData\<close> reads the file again and resolves with
  the decoded new text, whatever the cache held before.
\<close>

theorem external_change_invalidates:
  assumes "lastFileMtime w \<noteq> Some m'"
    and "JSON_parse raw' = Some v'"
    and "w' = external (overwrite raw' m') w"
  shows "watch_callback ''change'' w' =
           (Resolved (),
            w'\<lparr>cachedData := JNull, lastFileMtime := Some m', calls := calls w @ [Stat]\<rparr>) \<and>
         readData JSON_parse (snd (watch_callback ''change'' w')) =
           (Resolved v',
            w'\<lparr>cachedData := v', lastFileMtime := Some m',
               calls := calls w @ [Stat, ReadFile, Stat]\<rparr>)"
proof -
  have d: "data_file (disk w') = Some (raw', m')"
    and t: "lastFileMtime w' = lastFileMtime w" and c: "calls w' = calls w"
    by (simp_all add: assms(3) external_def overwrite_def)
  have step1: "watch_callback ''change'' w' =
      (Resolved (),
       w'\<lparr>cachedData := JNull, lastFileMtime := Some m', calls := calls w @ [Stat]\<rparr>)"
    using assms(1) by (simp add: watch_quiet d t c)
  have "\<not> truthy (cachedData (snd (watch_callback ''change'' w')))"
    by (simp add: step1)
  then have "readData JSON_parse (snd (watch_callback ''change'' w')) =
      (Resolved v',
       w'\<lparr>cachedData := v', lastFileMtime := Some m',
          calls := calls w @ [Stat, ReadFile, Stat]\<rparr>)"
    by (simp add: readData_miss step1 d assms(2))
  with step1 show ?thesis by simp
qed

theorem external_change_invalidates_witness:
  "lastFileMtime primed \<noteq> Some 7 \<and> JSON_parse_ex ''[1]'' = Some (JArr [JNum 1]) \<and>
   fst (readData JSON_parse_ex (external (overwrite ''[1]'' 7) primed)) = Resolved (JArr [JNum 2]) \<and>
   fst (readData JSON_parse_ex
          (snd (watch_callback ''change'' (external (overwrite ''[1]'' 7) primed))))
     = Resolved (JArr [JNum 1])"
proof -
  have h1: "lastFileMtime primed \<noteq> Some 7" by (simp add: ex_defs)
  have h2: "JSON_parse_ex ''[1]'' = Some (JArr [JNum 1])" by (simp add: ex_defs)
  have h3: "fst (readData JSON_parse_ex (external (overwrite ''[1]'' 7) primed))
      = Resolved (JArr [JNum 2])"
    by (simp add: readData_def readData_hit external_def ex_defs)
  from external_change_invalidates
      [where w = primed and m' = 7 and JSON_parse = JSON_parse_ex and raw' = "''[1]''"
         and v' = "JArr [JNum 1]" and w' = "external (overwrite ''[1]'' 7) primed",
       OF h1 h2 refl, THEN conjunct2]
  have "fst (readData JSON_parse_ex
          (snd (watch_callback ''change'' (external (overwrite ''[1]'' 7) primed))))
     = Resolved (JArr [JNum 1])"
    by simp
  with h1 h2 h3 show ?thesis by simp
qed

text \<open>
  C7. A \<^verbatim>\<open>'change'\<close> notification that finds the modification time equal to the
  recorded \<^verbatim>\<open>lastFileMtime\<close> changes neither variable; all it does is the
  \<^verbatim>\<open>fs.stat\<close> call itself. In particular the second of two notifications for the same
  state of the file changes nothing, whatever the first one found.
\<close>

theorem duplicate_notification_noop:
  assumes "data_file (disk w) = Some (raw, m)"
  shows "(lastFileMtime w = Some m \<longrightarrow>
            watch_callback ''change'' w = (Resolved (), w\<lparr>calls := calls w @ [Stat]\<rparr>)) \<and>
         watch_callback ''change'' (snd (watch_callback ''change'' w)) =
           (Resolved (), (snd (watch_callback ''change'' w))\<lparr>calls := calls w @ [Stat, Stat]\<rparr>)"
  using assms by (simp add: watch_quiet)

theorem duplicate_notification_noop_witness:
  "data_file (disk primed) = Some (''[2]'', 5) \<and> lastFileMtime primed = Some 5 \<and>
   watch_callback ''change'' primed = (Resolved (), primed\<lparr>calls := [Stat]\<rparr>) \<and>
   watch_callback ''change'' (primed\<lparr>calls := [Stat]\<rparr>)
     = (Resolved (), primed\<lparr>calls := [Stat, Stat]\<rparr>)"
proof -
  have h1: "data_file (disk primed) = Some (''[2]'', 5)" by (simp add: ex_defs)
  have h2: "lastFileMtime primed = Some 5" by (simp add: ex_defs)
  have h3: "calls primed = []" by (simp add: ex_defs)
  note dup = duplicate_notification_noop [OF h1]
  from dup [THEN conjunct1] h2 h3 have a: "watch_callback ''change'' primed = (Resolved (), primed\<lparr>calls := [Stat]\<rparr>)"
    by simp
  from dup [THEN conjunct2] h3 have "watch_callback ''change'' (snd (watch_callback ''change'' primed)) =
      (Resolved (), primed\<lparr>calls := [Stat, Stat]\<rparr>)"
    by (simp add: a)
  with a h1 h2 show ?thesis by simp
qed

text \<open>
  C8. When the \<^verbatim>\<open>fs.stat\<close> of a \<^verbatim>\<open>'change'\<close> notification fails, the callback still
  resolves: it sets \<^verbatim>\<open>cachedData\<close> to \<^verbatim>\<open>null\<close> and leaves \<^verbatim>\<open>lastFileMtime\<close> alone. The
  next \<^verbatim>\<open>readData\<close>, whatever has happened to the file by then, does not answer from
  the cache: its first step issues \<^verbatim>\<open>fs.readFile\<close>.
\<close>

theorem inspection_failure_clears_cache:
  assumes "data_file (disk w) = None"
  shows "watch_callback ''change'' w =
           (Resolved (), w\<lparr>cachedData := JNull, calls := calls w @ [Stat]\<rparr>) \<and>
         readData_step JSON_parse RD_call (external f (snd (watch_callback ''change'' w))) =
           (Pending (RD_readFile (fst (fs_readFile (external f w)))),
            (external f w)\<lparr>cachedData := JNull, calls := calls w @ [Stat, ReadFile]\<rparr>)"
  using assms by (simp add: watch_quiet fs_readFile_def external_def)

theorem inspection_failure_clears_cache_witness:
  "data_file (disk (external unlink primed)) = None \<and>
   watch_callback ''change'' (external unlink primed) =
     (Resolved (), (external unlink primed)\<lparr>cachedData := JNull, calls := [Stat]\<rparr>) \<and>
   lastFileMtime (snd (watch_callback ''change'' (external unlink primed))) = Some 5 \<and>
   fst (readData_step JSON_parse_ex RD_call
     (external (overwrite ''[1]'' 7) (snd (watch_callback ''change'' (external unlink primed)))))
    = Pending (RD_readFile (Inr ''[1]''))"
proof -
  have h1: "data_file (disk (external unlink primed)) = None"
    by (simp add: external_def ex_defs)
  have h2: "calls (external unlink primed) = []" "lastFileMtime (external unlink primed) = Some 5"
    by (simp_all add: external_def ex_defs)
  have h3: "fst (fs_readFile (external (overwrite ''[1]'' 7) (external unlink primed))) = Inr ''[1]''"
    by (simp add: fs_readFile_def external_def ex_defs)
  note fail = inspection_failure_clears_cache [OF h1, of JSON_parse_ex "overwrite ''[1]'' 7"]
  from fail [THEN conjunct1] h2 have a: "watch_callback ''change'' (external unlink primed) =
     (Resolved (), (external unlink primed)\<lparr>cachedData := JNull, calls := [Stat]\<rparr>)"
    by simp
  from fail [THEN conjunct2] h3 have b: "fst (readData_step JSON_parse_ex RD_call
     (external (overwrite ''[1]'' 7) (snd (watch_callback ''change'' (external unlink primed)))))
    = Pending (RD_readFile (Inr ''[1]''))"
    by (simp del: readData_step.simps)
  from a b h1 h2 show ?thesis by (simp del: readData_step.simps)
qed

text \<open>
  C10. A notification whose event type is not \<^verbatim>\<open>'change'\<close> (\<^verbatim>\<open>'rename'\<close>, say)
  resolves at once and leaves the whole state as it was: both variables, the file, and
  the list of \<^verbatim>\<open>fs\<close> calls.
\<close>

theorem other_events_ignored:
  assumes "eventType \<noteq> ''change''"
  shows "watch_with envs eventType w = (Resolved (), w)"
  unfolding watch_with_def using assms by (intro drive_Resolved) simp

theorem other_events_ignored_witness:
  "''rename'' \<noteq> ''change'' \<and> watch_with [unlink] ''rename'' primed = (Resolved (), primed)"
  using other_events_ignored [of "''rename''" "[unlink]" primed] by simp

subsection \<open>Falsy contents\<close>

lemma reads_invariant:
  assumes "data_file (disk w) = Some (raw, m)" and "P raw = Some v" and "\<not> truthy v"
    and "\<not> truthy (cachedData w)"
  shows "disk (reads P n w) = disk w \<and> \<not> truthy (cachedData (reads P n w))"
proof (induction n)
  case 0
  from assms(4) show ?case by simp
next
  case (Suc n)
  then show ?case by (simp add: readData_miss assms(1,2,3))
qed

text \<open>
  C9. The file decodes to a falsy value \<open>v\<close> (\<^verbatim>\<open>null\<close>, \<^verbatim>\<open>0\<close>, \<^verbatim>\<open>false\<close>, \<^verbatim>\<open>""\<close>) and
  the cache holds nothing truthy. Then every \<^verbatim>\<open>readData\<close> in a row, however many came
  before, resolves with \<open>v\<close> after reading and inspecting the file again: it adds
  \<^verbatim>\<open>fs.readFile\<close> and \<^verbatim>\<open>fs.stat\<close> to the calls made.
\<close>

theorem falsy_value_never_cached:
  assumes "data_file (disk w) = Some (raw, m)" and "JSON_parse raw = Some v"
    and "\<not> truthy v" and "\<not> truthy (cachedData w)"
  shows "fst (readData JSON_parse (reads JSON_parse n w)) = Resolved v \<and>
         calls (reads JSON_parse (Suc n) w) = calls (reads JSON_parse n w) @ [ReadFile, Stat]"
proof -
  from reads_invariant [of w raw m JSON_parse v n, OF assms]
  have "disk (reads JSON_parse n w) = disk w"
    and "\<not> truthy (cachedData (reads JSON_parse n w))" by simp_all
  then show ?thesis by (simp add: readData_miss assms(1,2))
qed

theorem falsy_value_never_cached_witness:
  "data_file (disk (external (overwrite ''0'' 5) idle)) = Some (''0'', 5) \<and>
   JSON_parse_ex ''0'' = Some (JNum 0) \<and> \<not> truthy (JNum 0) \<and>
   \<not> truthy (cachedData (external (overwrite ''0'' 5) idle)) \<and>
   fst (readData JSON_parse_ex (reads JSON_parse_ex 2 (external (overwrite ''0'' 5) idle)))
     = Resolved (JNum 0) \<and>
   calls (reads JSON_parse_ex 3 (external (overwrite ''0'' 5) idle))
     = [ReadFile, Stat, ReadFile, Stat, ReadFile, Stat]"
proof -
  let ?w = "external (overwrite ''0'' 5) idle"
  have h1: "data_file (disk ?w) = Some (''0'', 5)" by (simp add: external_def ex_defs)
  have h2: "JSON_parse_ex ''0'' = Some (JNum 0)" by (simp add: ex_defs)
  have h3: "\<not> truthy (JNum 0)" by simp
  have h4: "\<not> truthy (cachedData ?w)" by (simp add: external_def ex_defs)
  have c: "calls ?w = []" by (simp add: external_def ex_defs)
  note falsy = falsy_value_never_cached [of ?w "''0''" 5 JSON_parse_ex "JNum 0", OF h1 h2 h3 h4]
  from falsy [of 0, THEN conjunct2] c
  have c1: "calls (reads JSON_parse_ex (Suc 0) ?w) = [ReadFile, Stat]"
    by (simp del: reads.simps add: reads.simps(1))
  from falsy [of "Suc 0", THEN conjunct2] c1
  have c2: "calls (reads JSON_parse_ex (Suc (Suc 0)) ?w) = [ReadFile, Stat, ReadFile, Stat]"
    by (simp del: reads.simps)
  from falsy [of "Suc (Suc 0)", THEN conjunct2] c2
  have c3: "calls (reads JSON_parse_ex (Suc (Suc (Suc 0))) ?w)
      = [ReadFile, Stat, ReadFile, Stat, ReadFile, Stat]"
    by (simp del: reads.simps)
  from falsy [of "Suc (Suc 0)", THEN conjunct1] c3 h1 h2 h3 h4
  show ?thesis
    by (simp only: numeral_2_eq_2 numeral_3_eq_3 simp_thms)
qed

end
